theory Spec2Isabelle
  imports Main "HOL-Library.AList" "HOL-Library.Sublist"
begin

section \<open>Go values, errors and the standard-library functions the code calls\<close>

text \<open>
  A \<^verbatim>\<open>[]byte\<close> is a list of 8-bit characters. A \<^verbatim>\<open>time.Time\<close> is the number of
  nanoseconds since the zero instant of \<^verbatim>\<open>time.Time\<close>, the value a field holds when it
  was never assigned; \<^verbatim>\<open>time.Now()\<close> is passed in as \<open>now\<close>. A
  \<^verbatim>\<open>time.Duration\<close> is a signed number of nanoseconds.
\<close>

type_synonym bytes = string
type_synonym time = nat
type_synonym duration = int

text \<open>
  The error values: the plugin's own \<^verbatim>\<open>*ErrCacheHit\<close> with its
  \<^verbatim>\<open>RowsAffected\<close> field, and every other error, kept as \<^verbatim>\<open>errors.New(msg)\<close>
  with its message (the adapter's own two, and any error of the framework or the source).
\<close>

datatype goerror = ErrorsNew string | ErrCacheHit int

text \<open>A run-time panic of the Go runtime.\<close>

datatype panic = CloseOfClosedChannel

datatype chan = Open | Closed

definition IsZero :: "time \<Rightarrow> bool" where
  "IsZero t = (t = 0)"

definition After :: "time \<Rightarrow> time \<Rightarrow> bool" where
  "After t u = (u < t)"

definition Add :: "time \<Rightarrow> duration \<Rightarrow> time" where
  "Add t d = nat (int t + d)"

text \<open>\<^verbatim>\<open>strings.HasPrefix\<close>, \<^verbatim>\<open>strings.HasSuffix\<close> and \<^verbatim>\<open>strings.TrimSuffix\<close>.\<close>

definition HasPrefix :: "string \<Rightarrow> string \<Rightarrow> bool" where
  "HasPrefix s p = (length p \<le> length s \<and> take (length p) s = p)"

definition HasSuffix :: "string \<Rightarrow> string \<Rightarrow> bool" where
  "HasSuffix s suf = (length suf \<le> length s \<and> drop (length s - length suf) s = suf)"

definition TrimSuffix :: "string \<Rightarrow> string \<Rightarrow> string" where
  "TrimSuffix s suf = (if HasSuffix s suf then take (length s - length suf) s else s)"

section \<open>memory\_adapter.go\<close>

record cacheItem =
  item_value :: bytes
  expiration :: time

text \<open>
  The Go map \<^verbatim>\<open>store\<close> is an association list, looked up with \<^const>\<open>map_of\<close>,
  written with \<^const>\<open>AList.update\<close> and \<^const>\<open>AList.delete\<close>; a \<^verbatim>\<open>range\<close> loop
  visits the entries in list order. The lock \<^verbatim>\<open>mu\<close> has no sequential effect.
\<close>

record MemoryAdapter =
  store :: "(string \<times> cacheItem) list"
  stopCh :: chan
  cleanUp :: bool

definition NewMemoryAdapter :: MemoryAdapter where
  "NewMemoryAdapter = \<lparr>store = [], stopCh = Open, cleanUp = True\<rparr>"

definition Get :: "MemoryAdapter \<Rightarrow> time \<Rightarrow> string \<Rightarrow> (goerror + bytes) \<times> MemoryAdapter" where
  "Get m now key =
     (case map_of (store m) key of
        None \<Rightarrow> (Inl (ErrorsNew ''key not found''), m)
      | Some item \<Rightarrow>
          if \<not> IsZero (expiration item) \<and> After now (expiration item)
          then (Inl (ErrorsNew ''key expired''), m)
          else (Inr (item_value item), m))"

definition Set :: "MemoryAdapter \<Rightarrow> time \<Rightarrow> string \<Rightarrow> bytes \<Rightarrow> duration \<Rightarrow> goerror option \<times> MemoryAdapter" where
  "Set m now key v ttl =
     (let item = \<lparr>item_value = v, expiration = 0\<rparr>;
          item = (if 0 < ttl then item\<lparr>expiration := Add now ttl\<rparr> else item)
      in (None, m\<lparr>store := AList.update key item (store m)\<rparr>))"

definition Delete :: "MemoryAdapter \<Rightarrow> string \<Rightarrow> goerror option \<times> MemoryAdapter" where
  "Delete m key = (None, m\<lparr>store := AList.delete key (store m)\<rparr>)"

definition DeletePattern :: "MemoryAdapter \<Rightarrow> string \<Rightarrow> goerror option \<times> MemoryAdapter" where
  "DeletePattern m pattern =
     (let prefix = TrimSuffix pattern ''*'';
          keysToDelete = filter (\<lambda>key. HasPrefix key prefix \<or> pattern = ''*'') (map fst (store m))
      in (None, m\<lparr>store := fold AList.delete keysToDelete (store m)\<rparr>))"

definition Clear :: "MemoryAdapter \<Rightarrow> goerror option \<times> MemoryAdapter" where
  "Clear m = (None, m\<lparr>store := []\<rparr>)"

text \<open>
  \<^verbatim>\<open>Close\<close> assigns \<^verbatim>\<open>cleanUp\<close> and then closes \<^verbatim>\<open>stopCh\<close>; closing a closed
  channel panics.
\<close>

definition Close :: "MemoryAdapter \<Rightarrow> panic + (goerror option \<times> MemoryAdapter)" where
  "Close m =
     (let m1 = m\<lparr>cleanUp := False\<rparr>
      in if stopCh m1 = Closed then Inl CloseOfClosedChannel
         else Inr (None, m1\<lparr>stopCh := Closed\<rparr>))"

definition cleanup :: "MemoryAdapter \<Rightarrow> time \<Rightarrow> MemoryAdapter" where
  "cleanup m now =
     m\<lparr>store := fold (\<lambda>(key, item) s.
                       if \<not> IsZero (expiration item) \<and> After now (expiration item)
                       then AList.delete key s else s)
                    (store m) (store m)\<rparr>"

section \<open>Values behind \<^verbatim>\<open>any\<close>, contexts and the host framework's call object\<close>

text \<open>
  A value of type \<^verbatim>\<open>any\<close>: the nil interface, scalars, a struct with its fields, a
  slice, an array, a map, and a pointer (nil or to a value).
\<close>

datatype goval =
    VNil
  | VBool bool
  | VInt int
  | VString string
  | VStruct "goval list"
  | VSlice "goval list"
  | VArray "goval list"
  | VMap "(goval \<times> goval) list"
  | VPointer goval
  | VNilPointer

text \<open>\<^verbatim>\<open>reflect.Kind\<close>, \<^verbatim>\<open>reflect.ValueOf(v).Kind()\<close>, \<^verbatim>\<open>reflect.Indirect\<close> and \<^verbatim>\<open>Len\<close>.\<close>

datatype kind = Invalid | KBool | KInt | KString | KStruct | KSlice | KArray | KMap | KPointer

fun Kind :: "goval \<Rightarrow> kind" where
  "Kind VNil = Invalid"
| "Kind (VBool b) = KBool"
| "Kind (VInt i) = KInt"
| "Kind (VString s) = KString"
| "Kind (VStruct fs) = KStruct"
| "Kind (VSlice xs) = KSlice"
| "Kind (VArray xs) = KArray"
| "Kind (VMap kvs) = KMap"
| "Kind (VPointer v) = KPointer"
| "Kind VNilPointer = KPointer"

text \<open>The element of a nil pointer is the zero \<^verbatim>\<open>reflect.Value\<close>, of kind \<^verbatim>\<open>Invalid\<close>.\<close>

fun Indirect :: "goval \<Rightarrow> goval" where
  "Indirect (VPointer v) = v"
| "Indirect VNilPointer = VNil"
| "Indirect v = v"

text \<open>
  \<^verbatim>\<open>Len\<close> panics on a kind that has no length; the code calls it on a slice only, and
  the last equation is never reached from it.
\<close>

fun Len :: "goval \<Rightarrow> nat" where
  "Len (VSlice xs) = length xs"
| "Len (VArray xs) = length xs"
| "Len (VMap kvs) = length kvs"
| "Len (VString s) = length s"
| "Len v = 0"

text \<open>
  A \<^verbatim>\<open>context.Context\<close> maps keys to values; a key of the package's own type
  \<^verbatim>\<open>contextKey\<close> differs from a plain string key with the same text. \<^verbatim>\<open>Value\<close>
  returns nil for a key that was never set.
\<close>

datatype ctxkey = contextKey string | stringKey string

type_synonym Context = "ctxkey \<rightharpoonup> goval"

definition Background :: Context where
  "Background = Map.empty"

definition WithValue :: "Context \<Rightarrow> ctxkey \<Rightarrow> goval \<Rightarrow> Context" where
  "WithValue ctx k v = ctx(k \<mapsto> v)"

definition Value :: "Context \<Rightarrow> ctxkey \<Rightarrow> goval" where
  "Value ctx k = (case ctx k of None \<Rightarrow> VNil | Some v \<Rightarrow> v)"

text \<open>
  The parts of \<^verbatim>\<open>gorm.DB\<close> and \<^verbatim>\<open>gorm.Statement\<close> the plugin reads and writes.
  \<^verbatim>\<open>Schema.ModelType\<close> is kept as the text its \<^verbatim>\<open>String()\<close> returns;
  \<^verbatim>\<open>Statement.Settings\<close> is a \<^verbatim>\<open>sync.Map\<close> from strings to values.
\<close>

record Schema =
  ModelType :: string
  Table :: string

record Statement =
  Context :: "Context option"
  Settings :: "string \<rightharpoonup> goval"
  Schema :: "Schema option"
  SQL :: string
  Vars :: "goval list"
  Dest :: goval

record DB =
  Error :: "goerror option"
  RowsAffected :: int
  Statement :: Statement

section \<open>context.go and scopes.go\<close>

definition contextKeySkipCache :: ctxkey where
  "contextKeySkipCache = contextKey ''gorm:cache:skip''"

definition SkipCacheContext :: "Context \<Rightarrow> Context" where
  "SkipCacheContext ctx = WithValue ctx contextKeySkipCache (VBool True)"

definition WithSkipCache :: "Context \<Rightarrow> bool \<Rightarrow> Context" where
  "WithSkipCache ctx skip = WithValue ctx contextKeySkipCache (VBool skip)"

definition getSkipCacheFromContext :: "Context option \<Rightarrow> bool \<times> bool" where
  "getSkipCacheFromContext ctx =
     (case ctx of
        None \<Rightarrow> (False, False)
      | Some c \<Rightarrow>
          (let val = Value c contextKeySkipCache
           in if val \<noteq> VNil
              then (case val of VBool skip \<Rightarrow> (skip, True) | _ \<Rightarrow> (False, False))
              else (False, False)))"

definition SkipCache :: "DB \<Rightarrow> DB" where
  "SkipCache db =
     db\<lparr>Statement := (Statement db)\<lparr>Settings := (Settings (Statement db))(''gorm:cache:skip'' \<mapsto> VBool True)\<rparr>\<rparr>"

definition EnableCache :: "DB \<Rightarrow> DB" where
  "EnableCache db =
     db\<lparr>Statement := (Statement db)\<lparr>Settings := (Settings (Statement db))(''gorm:cache:skip'' \<mapsto> VBool False)\<rparr>\<rparr>"

section \<open>adapter.go and serializer.go: the two interfaces\<close>

text \<open>
  An implementation of \<^verbatim>\<open>Adapter\<close> over its own state \<open>'s\<close>: every method returns
  its result and the state it leaves. \<^verbatim>\<open>Get\<close> and \<^verbatim>\<open>Set\<close> are given the
  current time.
\<close>

record 's Adapter =
  iGet :: "'s \<Rightarrow> time \<Rightarrow> string \<Rightarrow> (goerror + bytes) \<times> 's"
  iSet :: "'s \<Rightarrow> time \<Rightarrow> string \<Rightarrow> bytes \<Rightarrow> duration \<Rightarrow> goerror option \<times> 's"
  iDelete :: "'s \<Rightarrow> string \<Rightarrow> goerror option \<times> 's"
  iDeletePattern :: "'s \<Rightarrow> string \<Rightarrow> goerror option \<times> 's"
  iClear :: "'s \<Rightarrow> goerror option \<times> 's"
  iClose :: "'s \<Rightarrow> panic + (goerror option \<times> 's)"

definition memoryAdapter :: "MemoryAdapter Adapter" where
  "memoryAdapter =
     \<lparr>iGet = Get, iSet = Set, iDelete = Delete, iDeletePattern = DeletePattern,
      iClear = Clear, iClose = Close\<rparr>"

text \<open>
  \<^verbatim>\<open>Unmarshal\<close> writes through the destination pointer: it returns its error and the
  destination as it leaves it.
\<close>

record Serializer =
  Marshal :: "goval \<Rightarrow> goerror + bytes"
  Unmarshal :: "bytes \<Rightarrow> goval \<Rightarrow> goerror option \<times> goval"

section \<open>config.go\<close>

text \<open>
  An entry of \<^verbatim>\<open>CacheModels\<close> is kept as the text \<^verbatim>\<open>fmt.Sprintf("%T", _)\<close> prints
  for it, which is all the code reads of it. The \<^verbatim>\<open>Serializer\<close> field is the one
  the plugin uses; the two optional functions are \<open>None\<close> when nil.
\<close>

record 's Config =
  Adapter :: "'s Adapter"
  TTL :: duration
  CacheModels :: "string list"
  InvalidateOnUpdate :: bool
  InvalidateOnCreate :: bool
  InvalidateOnDelete :: bool
  KeyPrefix :: string
  SkipCacheCondition :: "(DB \<Rightarrow> bool) option"
  CacheKeyGenerator :: "(DB \<Rightarrow> string) option"
  Serializer :: Serializer

text \<open>
  What the code takes from outside the package: \<^verbatim>\<open>json.Marshal\<close> of the key struct,
  \<^verbatim>\<open>md5.Sum\<close>, \<^verbatim>\<open>hex.EncodeToString\<close>, and the framework's
  \<^verbatim>\<open>callbacks.BuildQuerySQL\<close>.
\<close>

record Lib =
  json_Marshal :: "string \<Rightarrow> goval list \<Rightarrow> bytes"
  md5_Sum :: "bytes \<Rightarrow> bytes"
  hex_EncodeToString :: "bytes \<Rightarrow> string"
  BuildQuerySQL :: "DB \<Rightarrow> DB"

definition shouldCacheModel :: "'s Config \<Rightarrow> DB \<Rightarrow> bool" where
  "shouldCacheModel c db =
     (if length (CacheModels c) = 0 then True
      else (case Schema (Statement db) of
              None \<Rightarrow> False
            | Some sch \<Rightarrow>
                (let modelType = ModelType sch
                 in list_ex (\<lambda>cacheModel. cacheModel = modelType) (CacheModels c))))"

definition shouldSkipCache :: "'s Config \<Rightarrow> DB \<Rightarrow> bool" where
  "shouldSkipCache c db =
     (let (skip, ok) = getSkipCacheFromContext (Context (Statement db))
      in if ok \<and> skip then True
         else if (case SkipCacheCondition c of None \<Rightarrow> False | Some cond \<Rightarrow> cond db) then True
         else (case Settings (Statement db) ''gorm:cache:skip'' of
                 Some (VBool skip) \<Rightarrow> skip
               | _ \<Rightarrow> False))"

text \<open>
  The same function with what it consults made visible: next to its result it returns,
  in the order they happen, the lookup in the context, the call of the custom condition
  (made only when one is configured) and the load from the settings.
\<close>

datatype signal = FromContext | FromCondition | FromSettings

definition shouldSkipCacheTrace :: "'s Config \<Rightarrow> DB \<Rightarrow> bool \<times> signal list" where
  "shouldSkipCacheTrace c db =
     (let (skip, ok) = getSkipCacheFromContext (Context (Statement db));
          tr = [FromContext]
      in if ok \<and> skip then (True, tr)
         else (let (skip, tr) =
                     (case SkipCacheCondition c of
                        None \<Rightarrow> (False, tr)
                      | Some cond \<Rightarrow> (cond db, tr @ [FromCondition]))
               in if skip then (True, tr)
                  else (case Settings (Statement db) ''gorm:cache:skip'' of
                          Some (VBool skip) \<Rightarrow> (skip, tr @ [FromSettings])
                        | _ \<Rightarrow> (False, tr @ [FromSettings]))))"

definition generateCacheKey :: "Lib \<Rightarrow> 's Config \<Rightarrow> DB \<Rightarrow> string" where
  "generateCacheKey lib c db =
     (case CacheKeyGenerator c of
        Some gen \<Rightarrow> KeyPrefix c @ gen db
      | None \<Rightarrow>
          (let jsonBytes = json_Marshal lib (SQL (Statement db)) (Vars (Statement db));
               hash = md5_Sum lib jsonBytes;
               tableName = (case Schema (Statement db) of None \<Rightarrow> ''unknown'' | Some sch \<Rightarrow> Table sch)
           in KeyPrefix c @ tableName @ '':'' @ hex_EncodeToString lib hash))"

definition getModelPattern :: "'s Config \<Rightarrow> DB \<Rightarrow> string" where
  "getModelPattern c db =
     (case Schema (Statement db) of
        None \<Rightarrow> KeyPrefix c @ ''*''
      | Some sch \<Rightarrow> KeyPrefix c @ Table sch @ '':*'')"

section \<open>plugin.go\<close>

record 's CachePlugin =
  config :: "'s Config"

definition calculateRowsAffected :: "goval \<Rightarrow> int" where
  "calculateRowsAffected dest =
     (if dest = VNil then 0
      else (let reflectValue = Indirect dest
            in case Kind reflectValue of
                 KSlice \<Rightarrow> int (Len reflectValue)
               | KStruct \<Rightarrow> 1
               | _ \<Rightarrow> 0))"

text \<open>
  Each callback takes the call object and the adapter's state and returns both as it
  leaves them.
\<close>

definition queryCallback :: "Lib \<Rightarrow> 's CachePlugin \<Rightarrow> time \<Rightarrow> DB \<times> 's \<Rightarrow> DB \<times> 's" where
  "queryCallback lib p now dbs =
     (let (db, s) = dbs
      in if Error db \<noteq> None then (db, s)
         else if shouldSkipCache (config p) db then (db, s)
         else if \<not> shouldCacheModel (config p) db then (db, s)
         else
           (let db = (if length (SQL (Statement db)) = 0 then BuildQuerySQL lib db else db)
            in if SQL (Statement db) = [] then (db, s)
               else
                 (let cacheKey = generateCacheKey lib (config p) db;
                      (r, s) = iGet (Adapter (config p)) s now cacheKey
                  in case r of
                       Inl err \<Rightarrow>
                         (db\<lparr>Statement := (Statement db)
                               \<lparr>Settings := (Settings (Statement db))(''gorm:cache:key'' \<mapsto> VString cacheKey)\<rparr>\<rparr>, s)
                     | Inr cachedData \<Rightarrow>
                         if Dest (Statement db) \<noteq> VNil
                         then (let (err, dest) = Unmarshal (Serializer (config p)) cachedData (Dest (Statement db));
                                   db = db\<lparr>Statement := (Statement db)\<lparr>Dest := dest\<rparr>\<rparr>
                               in if err = None
                                  then (let rowsAffected = calculateRowsAffected (Dest (Statement db))
                                        in (db\<lparr>Error := Some (ErrCacheHit rowsAffected)\<rparr>, s))
                                  else (db, s))
                         else (db, s))))"

definition afterQueryCallback :: "'s CachePlugin \<Rightarrow> time \<Rightarrow> DB \<times> 's \<Rightarrow> DB \<times> 's" where
  "afterQueryCallback p now dbs =
     (let (db, s) = dbs
      in case Error db of
           Some (ErrCacheHit n) \<Rightarrow> (db\<lparr>RowsAffected := n, Error := None\<rparr>, s)
         | Some (ErrorsNew msg) \<Rightarrow> (db, s)
         | None \<Rightarrow>
             if shouldSkipCache (config p) db then (db, s)
             else if \<not> shouldCacheModel (config p) db then (db, s)
             else (case Settings (Statement db) ''gorm:cache:key'' of
                     Some (VString cacheKey) \<Rightarrow>
                       if RowsAffected db = 0 then (db, s)
                       else (case Marshal (Serializer (config p)) (Dest (Statement db)) of
                               Inl err \<Rightarrow> (db, s)
                             | Inr cachedData \<Rightarrow>
                                 (db, snd (iSet (Adapter (config p)) s now cacheKey cachedData (TTL (config p)))))
                   | _ \<Rightarrow> (db, s)))"

definition invalidateCallback :: "'s CachePlugin \<Rightarrow> DB \<times> 's \<Rightarrow> DB \<times> 's" where
  "invalidateCallback p dbs =
     (let (db, s) = dbs
      in if Error db \<noteq> None then (db, s)
         else if \<not> shouldCacheModel (config p) db then (db, s)
         else (let pattern = getModelPattern (config p) db
               in (db, snd (iDeletePattern (Adapter (config p)) s pattern))))"

text \<open>
  The framework runs the query callbacks in the order the plugin registers them:
  \<^verbatim>\<open>gorm:cache:query\<close>, \<^verbatim>\<open>gorm:query\<close>, \<^verbatim>\<open>gorm:cache:after_query\<close>. Its own
  \<^verbatim>\<open>gorm:query\<close> step, here \<open>source\<close>, reads the data source only when the call
  carries no error.
\<close>

definition gormQuery :: "(DB \<Rightarrow> DB) \<Rightarrow> DB \<times> 's \<Rightarrow> DB \<times> 's" where
  "gormQuery source dbs = (let (db, s) = dbs in if Error db = None then (source db, s) else (db, s))"

definition runQuery :: "Lib \<Rightarrow> 's CachePlugin \<Rightarrow> (DB \<Rightarrow> DB) \<Rightarrow> time \<Rightarrow> DB \<times> 's \<Rightarrow> DB \<times> 's" where
  "runQuery lib p source now dbs =
     afterQueryCallback p now (gormQuery source (queryCallback lib p now dbs))"

text \<open>
  \<^verbatim>\<open>Initialize\<close> registers \<^verbatim>\<open>invalidateCallback\<close> after create, update and delete,
  each under its own switch of the configuration.
\<close>

definition afterCreate :: "'s CachePlugin \<Rightarrow> DB \<times> 's \<Rightarrow> DB \<times> 's" where
  "afterCreate p dbs = (if InvalidateOnCreate (config p) then invalidateCallback p dbs else dbs)"

definition afterUpdate :: "'s CachePlugin \<Rightarrow> DB \<times> 's \<Rightarrow> DB \<times> 's" where
  "afterUpdate p dbs = (if InvalidateOnUpdate (config p) then invalidateCallback p dbs else dbs)"

definition afterDelete :: "'s CachePlugin \<Rightarrow> DB \<times> 's \<Rightarrow> DB \<times> 's" where
  "afterDelete p dbs = (if InvalidateOnDelete (config p) then invalidateCallback p dbs else dbs)"

text \<open>
  An implementation of the interface that holds nothing and records the name of every
  method called on it, to observe which adapter calls a callback makes.
\<close>

definition recordingAdapter :: "string list Adapter" where
  "recordingAdapter =
     \<lparr>iGet = (\<lambda>log now key. (Inl (ErrorsNew ''key not found''), log @ [''Get''])),
      iSet = (\<lambda>log now key v ttl. (None, log @ [''Set''])),
      iDelete = (\<lambda>log key. (None, log @ [''Delete''])),
      iDeletePattern = (\<lambda>log pattern. (None, log @ [''DeletePattern''])),
      iClear = (\<lambda>log. (None, log @ [''Clear''])),
      iClose = (\<lambda>log. Inr (None, log @ [''Close'']))\<rparr>"

section \<open>Concrete values for the worked examples\<close>

text \<open>
  A stand-in for the pluggable \<^verbatim>\<open>Serializer\<close>: a collection of \<open>n\<close> items is written
  as \<open>n\<close> marks and read back as \<open>n\<close> empty structs behind the destination pointer; any
  other value is written as no bytes.
\<close>

definition demoMarshal :: "goval \<Rightarrow> goerror + bytes" where
  "demoMarshal v = Inr (replicate (Len (Indirect v)) (CHR ''x''))"

definition demoUnmarshal :: "bytes \<Rightarrow> goval \<Rightarrow> goerror option \<times> goval" where
  "demoUnmarshal b dest = (None, VPointer (VSlice (map (\<lambda>c. VStruct []) b)))"

definition demoSerializer :: Serializer where
  "demoSerializer = \<lparr>Marshal = demoMarshal, Unmarshal = demoUnmarshal\<rparr>"

text \<open>
  A stand-in for the library: the key text is the SQL text itself, and the framework
  builds the same statement text for every call.
\<close>

definition demoBuild :: "DB \<Rightarrow> DB" where
  "demoBuild db = db\<lparr>Statement := (Statement db)\<lparr>SQL := ''SELECT * FROM test_users''\<rparr>\<rparr>"

definition demoLib :: Lib where
  "demoLib =
     \<lparr>json_Marshal = (\<lambda>sql vars. sql), md5_Sum = (\<lambda>b. b), hex_EncodeToString = (\<lambda>b. b),
      BuildQuerySQL = demoBuild\<rparr>"

text \<open>
  The configuration \<^verbatim>\<open>New\<close> leaves when given only an adapter: five minutes, no
  allow-list, the default prefix, no custom functions.
\<close>

definition demoConfig :: "'s Adapter \<Rightarrow> 's Config" where
  "demoConfig a =
     \<lparr>Adapter = a, TTL = 300000000000, CacheModels = [],
      InvalidateOnUpdate = True, InvalidateOnCreate = True, InvalidateOnDelete = True,
      KeyPrefix = ''gorm:cache:'', SkipCacheCondition = None, CacheKeyGenerator = None,
      Serializer = demoSerializer\<rparr>"

definition demoPlugin :: "'s Adapter \<Rightarrow> 's CachePlugin" where
  "demoPlugin a = \<lparr>config = demoConfig a\<rparr>"

definition skipAlways :: "DB \<Rightarrow> bool" where
  "skipAlways db = True"

definition skipNever :: "DB \<Rightarrow> bool" where
  "skipNever db = False"

definition testUserSchema :: Schema where
  "testUserSchema = \<lparr>ModelType = ''gormcache.TestUser'', Table = ''test_users''\<rparr>"

text \<open>
  A fresh call on the model, not yet built, with a pointer to an empty slice as its
  destination; and a raw call with no schema.
\<close>

definition findUsers :: DB where
  "findUsers =
     \<lparr>Error = None, RowsAffected = 0,
      Statement = \<lparr>Context = Some Background, Settings = Map.empty,
                   Schema = Some testUserSchema, SQL = [], Vars = [],
                   Dest = VPointer (VSlice [])\<rparr>\<rparr>"

definition rawQuery :: DB where
  "rawQuery =
     \<lparr>Error = None, RowsAffected = 0,
      Statement = \<lparr>Context = Some Background, Settings = Map.empty,
                   Schema = None, SQL = ''SELECT 1'', Vars = [], Dest = VNil\<rparr>\<rparr>"

text \<open>A data source that finds the given rows and reports their number.\<close>

definition sourceWith :: "goval list \<Rightarrow> DB \<Rightarrow> DB" where
  "sourceWith rows db =
     db\<lparr>RowsAffected := int (length rows),
        Statement := (Statement db)\<lparr>Dest := VPointer (VSlice rows)\<rparr>\<rparr>"

text \<open>A data source that reports a number of rows and leaves the destination alone.\<close>

definition sourceCount :: "int \<Rightarrow> DB \<Rightarrow> DB" where
  "sourceCount n db = db\<lparr>RowsAffected := n\<rparr>"

section \<open>Facts about the library functions and the store\<close>

lemma HasPrefix_iff: "HasPrefix s p = prefix p s"
  unfolding HasPrefix_def
  by (metis prefix_def append_eq_conv_conj take_is_prefix prefix_length_le)

lemma TrimSuffix_star: "TrimSuffix (pre @ ''*'') ''*'' = pre"
  by (simp add: TrimSuffix_def HasSuffix_def)

lemma TrimSuffix_only_star: "TrimSuffix ''*'' ''*'' = []"
  by (simp add: TrimSuffix_def HasSuffix_def)

lemma Add_pos: "0 < ttl \<Longrightarrow> Add now ttl = now + nat ttl"
  by (simp add: Add_def nat_add_distrib)

lemma map_of_fold_delete:
  "map_of (fold AList.delete ks al) k = (if k \<in> set ks then None else map_of al k)"
  by (induction ks arbitrary: al) (auto simp: AList.delete_conv')

lemma keys_fold_delete:
  "fst ` set (fold AList.delete ks al) = fst ` set al - set ks"
proof (induction ks arbitrary: al)
  case Nil
  show ?case by simp
next
  case (Cons k ks)
  have "fst ` set (AList.delete k al) = fst ` set al - {k}"
    by (auto simp: AList.delete_eq image_iff)
  with Cons show ?case by auto
qed

lemma map_of_sweep:
  "map_of (fold (\<lambda>(key, item) s. if P item then AList.delete key s else s) xs al) k =
     (if \<exists>item. (k, item) \<in> set xs \<and> P item then None else map_of al k)"
proof (induction xs arbitrary: al)
  case Nil
  show ?case by simp
next
  case (Cons x xs)
  obtain key item where x: "x = (key, item)" by (cases x)
  show ?case
    unfolding x using Cons [of "if P item then AList.delete key al else al"]
    by (auto simp: AList.delete_conv')
qed

lemma map_of_cleanup:
  assumes "distinct (map fst (store m))"
  shows "map_of (store (cleanup m now)) k =
           (case map_of (store m) k of
              None \<Rightarrow> None
            | Some item \<Rightarrow>
                if \<not> IsZero (expiration item) \<and> After now (expiration item) then None else Some item)"
proof (cases "map_of (store m) k")
  case None
  then show ?thesis
    by (simp add: cleanup_def map_of_sweep)
next
  case (Some item)
  have "\<And>i. ((k, i) \<in> set (store m)) = (i = item)"
    using assms Some by (metis map_of_is_SomeI map_of_SomeD option.inject)
  with Some show ?thesis
    by (simp add: cleanup_def map_of_sweep)
qed

section \<open>The in-memory adapter\<close>

text \<open>
  C4, as the code has it. The first \<^verbatim>\<open>Close\<close> of an adapter whose stop channel is
  open returns nil, having cleared \<^verbatim>\<open>cleanUp\<close> and closed the channel, and leaves the
  store alone. A second \<^verbatim>\<open>Close\<close> of the same adapter does not return: it panics,
  since nothing guards the \<^verbatim>\<open>close(m.stopCh)\<close>.
\<close>

theorem Close_once_then_panic:
  assumes "stopCh m = Open"
  shows "\<exists>m1. Close m = Inr (None, m1) \<and> stopCh m1 = Closed \<and> \<not> cleanUp m1 \<and>
              store m1 = store m \<and> Close m1 = Inl CloseOfClosedChannel"
  using assms by (simp add: Close_def)

theorem Close_once_then_panic_witness:
  "stopCh NewMemoryAdapter = Open \<and>
   (\<exists>m1. Close NewMemoryAdapter = Inr (None, m1) \<and> stopCh m1 = Closed \<and> \<not> cleanUp m1 \<and>
         store m1 = store NewMemoryAdapter \<and> Close m1 = Inl CloseOfClosedChannel)"
proof -
  have h: "stopCh NewMemoryAdapter = Open" by (simp add: NewMemoryAdapter_def)
  show ?thesis using h Close_once_then_panic [OF h] by simp
qed

text \<open>
  C4 as stated fails: on a new adapter the first \<^verbatim>\<open>Close\<close> returns and the second one
  does not return normally.
\<close>

theorem Close_twice_counterexample:
  "Close NewMemoryAdapter = Inr (None, \<lparr>store = [], stopCh = Closed, cleanUp = False\<rparr>) \<and>
   Close \<lparr>store = [], stopCh = Closed, cleanUp = False\<rparr> = Inl CloseOfClosedChannel"
  by (simp add: Close_def NewMemoryAdapter_def)

text \<open>
  C5. After \<^verbatim>\<open>Set(k, v, t)\<close> with \<open>t > 0\<close> at time \<open>now\<close>, a \<^verbatim>\<open>Get(k)\<close> at a time
  more than \<open>t\<close> later returns an error and not \<open>v\<close>. \<^verbatim>\<open>Get\<close> returns an error and
  no value both for a key that is absent and for a key whose entry has expired.
\<close>

theorem Get_after_expiry_is_error:
  "(0 < ttl \<and> int now + ttl < int now' \<longrightarrow>
      fst (Get (snd (Set m now key v ttl)) now' key) = Inl (ErrorsNew ''key expired'')) \<and>
   (map_of (store m) key = None \<longrightarrow>
      fst (Get m now key) = Inl (ErrorsNew ''key not found'')) \<and>
   (\<forall>item. map_of (store m) key = Some item \<and> \<not> IsZero (expiration item) \<and>
           After now (expiration item) \<longrightarrow>
      fst (Get m now key) = Inl (ErrorsNew ''key expired''))"
  by (auto simp: Get_def Set_def Let_def update_conv' IsZero_def After_def Add_def)

theorem Get_after_expiry_is_error_witness:
  "(0::int) < 100 \<and> int 5 + 100 < int 106 \<and>
   fst (Get (snd (Set NewMemoryAdapter 5 ''test:key'' ''test value'' 100)) 106 ''test:key'') =
     Inl (ErrorsNew ''key expired'') \<and>
   map_of (store NewMemoryAdapter) ''test:key'' = None \<and>
   fst (Get NewMemoryAdapter 5 ''test:key'') = Inl (ErrorsNew ''key not found'')"
  using Get_after_expiry_is_error [of 100 5 106 NewMemoryAdapter "''test:key''" "''test value''"]
  by (simp add: NewMemoryAdapter_def)

text \<open>
  C6. After \<^verbatim>\<open>Set(k, v, t)\<close> with \<open>t > 0\<close> at time \<open>now\<close>, a \<^verbatim>\<open>Get(k)\<close> at any time
  up to \<open>now + t\<close> returns \<open>v\<close>, whatever was stored at \<open>k\<close> before; the entry at \<open>k\<close>
  is the new one and the entries at the other keys are as they were.
\<close>

theorem Set_then_Get_returns_value:
  "(0 < ttl \<and> int now' \<le> int now + ttl \<longrightarrow>
      fst (Get (snd (Set m now key v ttl)) now' key) = Inr v) \<and>
   fst (Set m now key v ttl) = None \<and>
   (0 < ttl \<longrightarrow>
      map_of (store (snd (Set m now key v ttl))) key =
        Some \<lparr>item_value = v, expiration = now + nat ttl\<rparr>) \<and>
   (key' \<noteq> key \<longrightarrow>
      map_of (store (snd (Set m now key v ttl))) key' = map_of (store m) key')"
  by (auto simp: Get_def Set_def Let_def update_conv' IsZero_def After_def Add_def nat_add_distrib)

theorem Set_then_Get_returns_value_witness:
  "(0::int) < 60 \<and> int 30 \<le> int 5 + 60 \<and>
   fst (Get (snd (Set (snd (Set NewMemoryAdapter 1 ''test:key'' ''old'' 60)) 5
                  ''test:key'' ''test value'' 60)) 30 ''test:key'') = Inr ''test value''"
  using Set_then_Get_returns_value
          [of 60 30 5 "snd (Set NewMemoryAdapter 1 ''test:key'' ''old'' 60)" "''test:key''"
              "''test value''"]
  by simp

text \<open>
  C7. \<^verbatim>\<open>DeletePattern\<close> with a pattern \<open>pre*\<close> removes the keys that start with \<open>pre\<close>
  and no others: afterwards a key that starts with \<open>pre\<close> is absent, and every other key
  holds the entry it held before and \<^verbatim>\<open>Get\<close> returns for it what it returned before.
  The pattern \<open>*\<close> removes every key.
\<close>

theorem DeletePattern_removes_prefix:
  "fst (DeletePattern m (pre @ ''*'')) = None \<and>
   map_of (store (snd (DeletePattern m (pre @ ''*'')))) key =
     (if prefix pre key then None else map_of (store m) key) \<and>
   fst (Get (snd (DeletePattern m (pre @ ''*''))) now key) =
     (if prefix pre key then Inl (ErrorsNew ''key not found'') else fst (Get m now key)) \<and>
   fst ` set (store (snd (DeletePattern m (pre @ ''*'')))) =
     {k \<in> fst ` set (store m). \<not> prefix pre k} \<and>
   store (snd (DeletePattern m ''*'')) = []"
proof -
  have a: "map_of (store (snd (DeletePattern m (pre @ ''*'')))) key =
             (if prefix pre key then None else map_of (store m) key)"
    by (auto simp: DeletePattern_def Let_def TrimSuffix_star map_of_fold_delete HasPrefix_iff
                   map_of_eq_None_iff image_iff)
  have b: "fst (Get (snd (DeletePattern m (pre @ ''*''))) now key) =
             (if prefix pre key then Inl (ErrorsNew ''key not found'') else fst (Get m now key))"
    unfolding Get_def a by (simp split: option.splits)
  have c: "fst ` set (store (snd (DeletePattern m (pre @ ''*'')))) =
             {k \<in> fst ` set (store m). \<not> prefix pre k}"
    by (auto simp: DeletePattern_def Let_def TrimSuffix_star keys_fold_delete HasPrefix_iff)
  have "fst ` set (store (snd (DeletePattern m ''*''))) = {}"
    by (auto simp: DeletePattern_def Let_def TrimSuffix_only_star keys_fold_delete HasPrefix_def)
  then have d: "store (snd (DeletePattern m ''*'')) = []"
    by simp
  show ?thesis
    using a b c d by (simp add: DeletePattern_def Let_def)
qed

theorem DeletePattern_removes_prefix_witness:
  "(let m = snd (Set (snd (Set (snd (Set NewMemoryAdapter 5 ''user:1'' ''value1'' 60))
                               5 ''user:2'' ''value2'' 60))
                     5 ''order:1'' ''value3'' 60);
        m' = snd (DeletePattern m (''user:'' @ ''*''))
    in isl (fst (Get m' 6 ''user:1'')) \<and> isl (fst (Get m' 6 ''user:2'')) \<and>
       fst (Get m' 6 ''order:1'') = Inr ''value3'')"
proof -
  define m where "m = snd (Set (snd (Set (snd (Set NewMemoryAdapter 5 ''user:1'' ''value1'' 60))
                               5 ''user:2'' ''value2'' 60)) 5 ''order:1'' ''value3'' 60)"
  have g: "fst (Get m 6 ''order:1'') = Inr ''value3''"
    by (simp add: m_def Get_def Set_def NewMemoryAdapter_def IsZero_def After_def Add_def)
  show ?thesis
    unfolding Let_def m_def [symmetric]
    using DeletePattern_removes_prefix [of m "''user:''" "''user:1''" 6]
          DeletePattern_removes_prefix [of m "''user:''" "''user:2''" 6]
          DeletePattern_removes_prefix [of m "''user:''" "''order:1''" 6] g
    by simp
qed

text \<open>
  C10. \<^verbatim>\<open>Get\<close> leaves the adapter as it found it; an entry it reports as expired is
  still in the store afterwards. \<^verbatim>\<open>Set\<close> removes no key either. The sweep
  \<^verbatim>\<open>cleanup\<close> is what removes an expired entry (here for a store without duplicate
  keys, as a Go map is), and it keeps every entry that has not expired.
\<close>

theorem Get_leaves_store_unchanged:
  "snd (Get m now key) = m \<and>
   (\<forall>item. map_of (store m) key = Some item \<and> \<not> IsZero (expiration item) \<and>
           After now (expiration item) \<longrightarrow>
      isl (fst (Get m now key)) \<and> map_of (store (snd (Get m now key))) key = Some item) \<and>
   fst ` set (store m) \<subseteq> fst ` set (store (snd (Set m now k v ttl))) \<and>
   (distinct (map fst (store m)) \<longrightarrow>
      map_of (store (cleanup m now)) key =
        (case map_of (store m) key of
           None \<Rightarrow> None
         | Some item \<Rightarrow>
             if \<not> IsZero (expiration item) \<and> After now (expiration item) then None
             else Some item))"
proof -
  have a: "snd (Get m now key) = m"
    by (simp add: Get_def split: option.splits)
  have b: "\<forall>item. map_of (store m) key = Some item \<and> \<not> IsZero (expiration item) \<and>
                  After now (expiration item) \<longrightarrow>
             isl (fst (Get m now key)) \<and> map_of (store (snd (Get m now key))) key = Some item"
    by (simp add: Get_def)
  have c: "fst ` set (store m) \<subseteq> fst ` set (store (snd (Set m now k v ttl)))"
    by (auto simp: Set_def Let_def update_conv' simp flip: dom_map_of_conv_image_fst)
  show ?thesis
    using a b c map_of_cleanup [of m now key] by blast
qed

theorem Get_leaves_store_unchanged_witness:
  "(let m = snd (Set NewMemoryAdapter 5 ''test:key'' ''test value'' 100)
    in map_of (store m) ''test:key'' = Some \<lparr>item_value = ''test value'', expiration = 105\<rparr> \<and>
       After 200 105 \<and> distinct (map fst (store m)) \<and>
       isl (fst (Get m 200 ''test:key'')) \<and>
       snd (Get m 200 ''test:key'') = m \<and>
       map_of (store (snd (Get m 200 ''test:key''))) ''test:key'' =
         Some \<lparr>item_value = ''test value'', expiration = 105\<rparr> \<and>
       map_of (store (cleanup m 200)) ''test:key'' = None)"
proof -
  define m where "m = snd (Set NewMemoryAdapter 5 ''test:key'' ''test value'' 100)"
  have s: "store m = [(''test:key'', \<lparr>item_value = ''test value'', expiration = 105\<rparr>)]"
    by (simp add: m_def Set_def NewMemoryAdapter_def Add_def)
  show ?thesis
    unfolding Let_def m_def [symmetric]
    using Get_leaves_store_unchanged [of m 200 "''test:key''" "''test:key''" "''test value''" 100]
    by (simp add: s IsZero_def After_def)
qed

section \<open>The key and policy resolver\<close>

text \<open>
  C3 as stated fails: with the value \<open>false\<close> on the skip channel and a custom predicate
  that returns \<open>true\<close>, \<^verbatim>\<open>shouldSkipCache\<close> returns \<open>true\<close>, so caching does not proceed.
\<close>

theorem shouldSkipCache_false_channel_counterexample:
  "getSkipCacheFromContext (Some (WithSkipCache Background False)) = (False, True) \<and>
   skipAlways rawQuery \<and>
   shouldSkipCache
     ((demoConfig memoryAdapter)\<lparr>SkipCacheCondition := Some skipAlways\<rparr>)
     (rawQuery\<lparr>Statement := (Statement rawQuery)
                          \<lparr>Context := Some (WithSkipCache Background False)\<rparr>\<rparr>)"
  by (simp add: shouldSkipCache_def getSkipCacheFromContext_def WithSkipCache_def WithValue_def
                Value_def Background_def contextKeySkipCache_def demoConfig_def skipAlways_def)

text \<open>
  C3, as the code has it. \<^verbatim>\<open>shouldSkipCache\<close> consults the skip channel first, then
  calls the custom predicate, then loads the call's own \<^verbatim>\<open>gorm:cache:skip\<close> setting,
  and returns \<open>true\<close> at the first of them that asks to skip. Only the value \<open>true\<close> on
  the channel ends the evaluation there: the result is \<open>true\<close> and neither the predicate
  nor the setting is consulted. The value \<open>false\<close> on the channel, like no value or a
  nil context, does not end it: the predicate is called next when one is configured, and
  when it returns \<open>true\<close> the result is \<open>true\<close> and the setting is not loaded; otherwise
  the setting decides.
\<close>

theorem shouldSkipCache_precedence:
  "fst (shouldSkipCacheTrace c db) = shouldSkipCache c db \<and>
   (Context (Statement db) = Some ctx \<and> ctx contextKeySkipCache = Some (VBool True) \<longrightarrow>
      shouldSkipCache c db \<and> shouldSkipCacheTrace c db = (True, [FromContext])) \<and>
   ((Context (Statement db) = None \<or>
     (\<exists>ctx. Context (Statement db) = Some ctx \<and>
            (ctx contextKeySkipCache = None \<or> ctx contextKeySkipCache = Some (VBool False)))) \<longrightarrow>
      shouldSkipCache c db =
        ((\<exists>cond. SkipCacheCondition c = Some cond \<and> cond db) \<or>
         Settings (Statement db) ''gorm:cache:skip'' = Some (VBool True)) \<and>
      shouldSkipCacheTrace c db =
        (case SkipCacheCondition c of
           None \<Rightarrow>
             (Settings (Statement db) ''gorm:cache:skip'' = Some (VBool True),
              [FromContext, FromSettings])
         | Some cond \<Rightarrow>
             if cond db then (True, [FromContext, FromCondition])
             else (Settings (Statement db) ''gorm:cache:skip'' = Some (VBool True),
                   [FromContext, FromCondition, FromSettings]))) \<and>
   shouldSkipCache c db =
     (if getSkipCacheFromContext (Context (Statement db)) = (True, True) then True
      else if \<exists>cond. SkipCacheCondition c = Some cond \<and> cond db then True
      else Settings (Statement db) ''gorm:cache:skip'' = Some (VBool True))"
proof -
  have s: "(case Settings (Statement db) ''gorm:cache:skip'' of
              Some (VBool skip) \<Rightarrow> skip | _ \<Rightarrow> False) =
           (Settings (Statement db) ''gorm:cache:skip'' = Some (VBool True))"
    by (auto split: option.splits goval.splits)
  have st: "\<And>tr. (case Settings (Statement db) ''gorm:cache:skip'' of
              Some (VBool skip) \<Rightarrow> (skip, tr) | _ \<Rightarrow> (False, tr)) =
           (Settings (Statement db) ''gorm:cache:skip'' = Some (VBool True), tr)"
    by (auto split: option.splits goval.splits)
  have p: "(case SkipCacheCondition c of None \<Rightarrow> False | Some cond \<Rightarrow> cond db) =
           (\<exists>cond. SkipCacheCondition c = Some cond \<and> cond db)"
    by (auto split: option.splits)
  have g: "\<And>ctx. getSkipCacheFromContext (Some ctx) =
             (case ctx contextKeySkipCache of Some (VBool b) \<Rightarrow> (b, True) | _ \<Rightarrow> (False, False))"
    by (auto simp: getSkipCacheFromContext_def Value_def Let_def split: option.splits goval.splits)
  have g0: "getSkipCacheFromContext None = (False, False)"
    by (simp add: getSkipCacheFromContext_def)
  have a: "fst (shouldSkipCacheTrace c db) = shouldSkipCache c db"
    unfolding shouldSkipCache_def shouldSkipCacheTrace_def s st
    by (auto simp: Let_def split: option.splits prod.splits)
  have b: "shouldSkipCacheTrace c db = (True, [FromContext])"
    if "Context (Statement db) = Some ctx" "ctx contextKeySkipCache = Some (VBool True)"
    using that by (simp add: shouldSkipCacheTrace_def g)
  have t: "shouldSkipCacheTrace c db =
        (case SkipCacheCondition c of
           None \<Rightarrow>
             (Settings (Statement db) ''gorm:cache:skip'' = Some (VBool True),
              [FromContext, FromSettings])
         | Some cond \<Rightarrow>
             if cond db then (True, [FromContext, FromCondition])
             else (Settings (Statement db) ''gorm:cache:skip'' = Some (VBool True),
                   [FromContext, FromCondition, FromSettings]))"
    if "Context (Statement db) = None \<or>
        (\<exists>ctx. Context (Statement db) = Some ctx \<and>
            (ctx contextKeySkipCache = None \<or> ctx contextKeySkipCache = Some (VBool False)))"
    using that unfolding shouldSkipCacheTrace_def st
    by (auto simp: g g0 Let_def split: option.splits)
  have r: "shouldSkipCache c db =
     (if getSkipCacheFromContext (Context (Statement db)) = (True, True) then True
      else if \<exists>cond. SkipCacheCondition c = Some cond \<and> cond db then True
      else Settings (Statement db) ''gorm:cache:skip'' = Some (VBool True))"
    unfolding shouldSkipCache_def s p
    by (cases "Context (Statement db)") (auto simp: g g0 split: option.splits goval.splits)
  have u: "shouldSkipCache c db =
        ((\<exists>cond. SkipCacheCondition c = Some cond \<and> cond db) \<or>
         Settings (Statement db) ''gorm:cache:skip'' = Some (VBool True))"
    if "Context (Statement db) = None \<or>
        (\<exists>ctx. Context (Statement db) = Some ctx \<and>
            (ctx contextKeySkipCache = None \<or> ctx contextKeySkipCache = Some (VBool False)))"
    using that unfolding r by (auto simp: g g0)
  have v: "shouldSkipCache c db"
    if "Context (Statement db) = Some ctx" "ctx contextKeySkipCache = Some (VBool True)"
    using that unfolding r by (simp add: g)
  show ?thesis
    using a b t r u v by blast
qed

theorem shouldSkipCache_precedence_witness:
  "Context (Statement (rawQuery\<lparr>Statement := (Statement rawQuery)
                         \<lparr>Context := Some (SkipCacheContext Background)\<rparr>\<rparr>)) =
     Some (SkipCacheContext Background) \<and>
   SkipCacheContext Background contextKeySkipCache = Some (VBool True) \<and>
   shouldSkipCache
     ((demoConfig memoryAdapter)\<lparr>SkipCacheCondition := Some skipNever\<rparr>)
     (rawQuery\<lparr>Statement := (Statement rawQuery)
                          \<lparr>Context := Some (SkipCacheContext Background)\<rparr>\<rparr>) \<and>
   shouldSkipCacheTrace
     ((demoConfig memoryAdapter)\<lparr>SkipCacheCondition := Some skipNever\<rparr>)
     (rawQuery\<lparr>Statement := (Statement rawQuery)
                          \<lparr>Context := Some (SkipCacheContext Background)\<rparr>\<rparr>) =
     (True, [FromContext]) \<and>
   WithSkipCache Background False contextKeySkipCache = Some (VBool False) \<and>
   shouldSkipCacheTrace
     ((demoConfig memoryAdapter)\<lparr>SkipCacheCondition := Some skipAlways\<rparr>)
     (rawQuery\<lparr>Statement := (Statement rawQuery)
                          \<lparr>Context := Some (WithSkipCache Background False)\<rparr>\<rparr>) =
     (True, [FromContext, FromCondition])"
proof -
  define db where "db = rawQuery\<lparr>Statement := (Statement rawQuery)
                          \<lparr>Context := Some (SkipCacheContext Background)\<rparr>\<rparr>"
  define db' where "db' = rawQuery\<lparr>Statement := (Statement rawQuery)
                          \<lparr>Context := Some (WithSkipCache Background False)\<rparr>\<rparr>"
  define c where "c = (demoConfig memoryAdapter)\<lparr>SkipCacheCondition := Some skipAlways\<rparr>"
  have h1: "Context (Statement db) = Some (SkipCacheContext Background)"
    by (simp add: db_def)
  have h2: "SkipCacheContext Background contextKeySkipCache = Some (VBool True)"
    by (simp add: SkipCacheContext_def WithValue_def)
  have h3: "Context (Statement db') = Some (WithSkipCache Background False)"
    by (simp add: db'_def)
  have h4: "WithSkipCache Background False contextKeySkipCache = Some (VBool False)"
    by (simp add: WithSkipCache_def WithValue_def)
  have h5: "SkipCacheCondition c = Some skipAlways" "skipAlways db'"
    by (simp_all add: c_def skipAlways_def)
  have f: "shouldSkipCacheTrace c db' = (True, [FromContext, FromCondition])"
    using h3 h4 h5 shouldSkipCache_precedence [of c db' "WithSkipCache Background False"]
    by simp
  show ?thesis
    unfolding db_def [symmetric] db'_def [symmetric] c_def [symmetric]
    using h1 h2 h4 f
      shouldSkipCache_precedence
        [of "(demoConfig memoryAdapter)\<lparr>SkipCacheCondition := Some skipNever\<rparr>" db
            "SkipCacheContext Background"]
    by simp
qed

text \<open>
  C8 as stated fails: with an empty allow-list, a call with no schema (raw SQL) is still
  answered \<open>true\<close>.
\<close>

theorem shouldCacheModel_nil_schema_counterexample:
  "Schema (Statement rawQuery) = None \<and> shouldCacheModel (demoConfig memoryAdapter) rawQuery"
  by (simp add: shouldCacheModel_def demoConfig_def rawQuery_def)

text \<open>
  C8, as the code has it. \<^verbatim>\<open>shouldCacheModel\<close> returns \<open>true\<close> for every call when the
  allow-list is empty, also for a call with no schema. When the allow-list is not empty,
  it returns \<open>false\<close> for a call with no schema, and for a call with a schema it returns
  \<open>true\<close> exactly when the name of the model type is equal, as a string, to the type
  name of one of the entries.
\<close>

theorem shouldCacheModel_cases:
  "(CacheModels c = [] \<longrightarrow> shouldCacheModel c db) \<and>
   (CacheModels c \<noteq> [] \<and> Schema (Statement db) = None \<longrightarrow> \<not> shouldCacheModel c db) \<and>
   (\<forall>sch. CacheModels c \<noteq> [] \<and> Schema (Statement db) = Some sch \<longrightarrow>
      shouldCacheModel c db = (ModelType sch \<in> set (CacheModels c)))"
  by (auto simp: shouldCacheModel_def list_ex_iff)

theorem shouldCacheModel_cases_witness:
  "CacheModels ((demoConfig memoryAdapter)\<lparr>CacheModels := [''gormcache.TestUser'']\<rparr>) \<noteq> [] \<and>
   Schema (Statement rawQuery) = None \<and>
   \<not> shouldCacheModel ((demoConfig memoryAdapter)\<lparr>CacheModels := [''gormcache.TestUser'']\<rparr>)
        rawQuery \<and>
   Schema (Statement findUsers) = Some testUserSchema \<and>
   shouldCacheModel ((demoConfig memoryAdapter)\<lparr>CacheModels := [''gormcache.TestUser'']\<rparr>)
     findUsers"
proof -
  define c where "c = (demoConfig memoryAdapter)\<lparr>CacheModels := [''gormcache.TestUser'']\<rparr>"
  have h: "CacheModels c \<noteq> []" "Schema (Statement rawQuery) = None"
          "Schema (Statement findUsers) = Some testUserSchema"
          "ModelType testUserSchema \<in> set (CacheModels c)"
    by (simp_all add: c_def rawQuery_def findUsers_def testUserSchema_def)
  show ?thesis
    unfolding c_def [symmetric]
    using h shouldCacheModel_cases [of c rawQuery] shouldCacheModel_cases [of c findUsers]
    by simp
qed

section \<open>The query callbacks\<close>

lemmas demo_defs =
  demoPlugin_def demoConfig_def demoLib_def demoBuild_def demoSerializer_def demoMarshal_def
  demoUnmarshal_def findUsers_def testUserSchema_def sourceWith_def memoryAdapter_def
  NewMemoryAdapter_def Background_def

lemmas callback_defs =
  runQuery_def gormQuery_def queryCallback_def afterQueryCallback_def invalidateCallback_def
  afterCreate_def shouldSkipCache_def shouldCacheModel_def generateCacheKey_def
  getModelPattern_def getSkipCacheFromContext_def Value_def contextKeySkipCache_def
  calculateRowsAffected_def Get_def Set_def DeletePattern_def TrimSuffix_def HasSuffix_def
  HasPrefix_def IsZero_def After_def Add_def Let_def

lemma afterQueryCallback_other_error:
  "\<forall>n. Error db \<noteq> Some (ErrCacheHit n) \<Longrightarrow> fst (afterQueryCallback p now (db, s)) = db"
  by (auto simp: afterQueryCallback_def split: option.splits goerror.splits goval.splits sum.splits)

text \<open>
  C2. When the call already carries an error as \<^verbatim>\<open>queryCallback\<close> starts, the callback
  returns the call and the adapter as it found them, for every implementation of the
  adapter: no adapter method is called, no key is stored in the settings, and the error
  stays. When that error is not the plugin's own cache-hit marker, the whole chain of
  query callbacks returns the call unchanged as well, without reading the source.
\<close>

theorem queryCallback_prior_error_no_action:
  assumes "Error db \<noteq> None"
  shows "queryCallback lib p now (db, s) = (db, s) \<and>
         (\<forall>msg. Error db = Some (ErrorsNew msg) \<longrightarrow> runQuery lib p source now (db, s) = (db, s))"
  using assms by (auto simp: queryCallback_def runQuery_def gormQuery_def afterQueryCallback_def)

theorem queryCallback_prior_error_no_action_witness:
  "Error (findUsers\<lparr>Error := Some (ErrorsNew ''record not found'')\<rparr>) \<noteq> None \<and>
   queryCallback demoLib (demoPlugin recordingAdapter) 5
     (findUsers\<lparr>Error := Some (ErrorsNew ''record not found'')\<rparr>, []) =
     (findUsers\<lparr>Error := Some (ErrorsNew ''record not found'')\<rparr>, []) \<and>
   runQuery demoLib (demoPlugin recordingAdapter) (sourceWith []) 5
     (findUsers\<lparr>Error := Some (ErrorsNew ''record not found'')\<rparr>, []) =
     (findUsers\<lparr>Error := Some (ErrorsNew ''record not found'')\<rparr>, []) \<and>
   snd (queryCallback demoLib (demoPlugin recordingAdapter) 5 (findUsers, [])) = [''Get'']"
proof -
  define db where "db = findUsers\<lparr>Error := Some (ErrorsNew ''record not found'')\<rparr>"
  have g: "snd (queryCallback demoLib (demoPlugin recordingAdapter) 5 (findUsers, [])) = [''Get'']"
    by (simp add: demoPlugin_def demoConfig_def demoLib_def demoBuild_def findUsers_def
                  testUserSchema_def recordingAdapter_def Background_def callback_defs)
  have h: "Error db \<noteq> None" "Error db = Some (ErrorsNew ''record not found'')"
    by (simp_all add: db_def)
  show ?thesis
    unfolding db_def [symmetric]
    using h g queryCallback_prior_error_no_action
              [OF h(1), of demoLib "demoPlugin recordingAdapter" 5 "[]" "sourceWith []"]
    by simp
qed

text \<open>
  C9 as stated fails for a nil destination: with data stored under the call's key and a
  nil destination, \<^verbatim>\<open>queryCallback\<close> sets no marker, the source is read, and the
  caller gets the source's count, here 3, not 0.
\<close>

theorem nil_destination_hit_counterexample:
  "fst (Get (snd (runQuery demoLib (demoPlugin memoryAdapter)
                    (sourceWith [VStruct [VInt 1], VStruct [VInt 2]]) 1
                    (findUsers, NewMemoryAdapter)))
            5 ''gorm:cache:test_users:SELECT * FROM test_users'') = Inr ''xx'' \<and>
   Error (fst (queryCallback demoLib (demoPlugin memoryAdapter) 5
                 (findUsers\<lparr>Statement := (Statement findUsers)\<lparr>Dest := VNil\<rparr>\<rparr>,
                  snd (runQuery demoLib (demoPlugin memoryAdapter)
                         (sourceWith [VStruct [VInt 1], VStruct [VInt 2]]) 1
                         (findUsers, NewMemoryAdapter))))) = None \<and>
   RowsAffected (fst (runQuery demoLib (demoPlugin memoryAdapter) (sourceCount 3) 5
                        (findUsers\<lparr>Statement := (Statement findUsers)\<lparr>Dest := VNil\<rparr>\<rparr>,
                         snd (runQuery demoLib (demoPlugin memoryAdapter)
                                (sourceWith [VStruct [VInt 1], VStruct [VInt 2]]) 1
                                (findUsers, NewMemoryAdapter))))) = 3"
  by (simp add: demo_defs callback_defs sourceCount_def)

text \<open>
  C9, as the code has it. \<^verbatim>\<open>calculateRowsAffected\<close> is 1 for a struct, also behind a pointer, the number
  of elements for a slice, also behind a pointer, and 0 for nil and for every other
  value. On a cache hit (no prior error, caching neither skipped nor filtered, statement
  text present, \<^verbatim>\<open>Get\<close> returns data, the destination is not nil and \<^verbatim>\<open>Unmarshal\<close>
  succeeds), \<^verbatim>\<open>queryCallback\<close> sets the marker with the count of the filled
  destination, and the chain of query callbacks returns the call with that count in
  \<^verbatim>\<open>RowsAffected\<close> and with no error, whatever the source would have returned.
  When \<^verbatim>\<open>Get\<close> returns data and the destination is nil, \<^verbatim>\<open>queryCallback\<close> sets no
  marker and leaves the call as built; the source is then read and the caller gets what
  the source returns, its count included.
\<close>

theorem cache_hit_rows_affected:
  "calculateRowsAffected VNil = 0 \<and>
   calculateRowsAffected (VStruct fs) = 1 \<and>
   calculateRowsAffected (VPointer (VStruct fs)) = 1 \<and>
   calculateRowsAffected (VSlice xs) = int (length xs) \<and>
   calculateRowsAffected (VPointer (VSlice xs)) = int (length xs) \<and>
   (Kind (Indirect d) \<noteq> KSlice \<and> Kind (Indirect d) \<noteq> KStruct \<longrightarrow> calculateRowsAffected d = 0) \<and>
   afterQueryCallback p now (db\<lparr>Error := Some (ErrCacheHit n)\<rparr>, s) =
     (db\<lparr>RowsAffected := n, Error := None\<rparr>, s) \<and>
   (Error db = None \<and> \<not> shouldSkipCache (config p) db \<and> shouldCacheModel (config p) db \<and>
    db' = (if SQL (Statement db) = [] then BuildQuerySQL lib db else db) \<and>
    SQL (Statement db') \<noteq> [] \<and>
    iGet (Adapter (config p)) s now (generateCacheKey lib (config p) db') = (Inr data, s') \<and>
    Dest (Statement db') \<noteq> VNil \<and>
    Unmarshal (Serializer (config p)) data (Dest (Statement db')) = (None, dest') \<longrightarrow>
      queryCallback lib p now (db, s) =
        (db'\<lparr>Statement := (Statement db')\<lparr>Dest := dest'\<rparr>,
             Error := Some (ErrCacheHit (calculateRowsAffected dest'))\<rparr>, s') \<and>
      runQuery lib p source now (db, s) =
        (db'\<lparr>Statement := (Statement db')\<lparr>Dest := dest'\<rparr>,
             RowsAffected := calculateRowsAffected dest', Error := None\<rparr>, s')) \<and>
   (Error db = None \<and> \<not> shouldSkipCache (config p) db \<and> shouldCacheModel (config p) db \<and>
    db' = (if SQL (Statement db) = [] then BuildQuerySQL lib db else db) \<and>
    SQL (Statement db') \<noteq> [] \<and>
    iGet (Adapter (config p)) s now (generateCacheKey lib (config p) db') = (Inr data, s') \<and>
    Dest (Statement db') = VNil \<longrightarrow>
      queryCallback lib p now (db, s) = (db', s') \<and>
      (Error db' = None \<and> (\<forall>n. Error (source db') \<noteq> Some (ErrCacheHit n)) \<longrightarrow>
         fst (runQuery lib p source now (db, s)) = source db'))"
proof -
  have a: "calculateRowsAffected VNil = 0" "calculateRowsAffected (VStruct fs) = 1"
          "calculateRowsAffected (VPointer (VStruct fs)) = 1"
          "calculateRowsAffected (VSlice xs) = int (length xs)"
          "calculateRowsAffected (VPointer (VSlice xs)) = int (length xs)"
    by (simp_all add: calculateRowsAffected_def)
  have b: "Kind (Indirect d) \<noteq> KSlice \<and> Kind (Indirect d) \<noteq> KStruct \<longrightarrow> calculateRowsAffected d = 0"
    by (simp add: calculateRowsAffected_def Let_def split: kind.splits)
  have c: "afterQueryCallback p now (db\<lparr>Error := Some (ErrCacheHit n)\<rparr>, s) =
             (db\<lparr>RowsAffected := n, Error := None\<rparr>, s)"
    by (simp add: afterQueryCallback_def)
  have d: "queryCallback lib p now (db, s) =
             (db'\<lparr>Statement := (Statement db')\<lparr>Dest := dest'\<rparr>,
                  Error := Some (ErrCacheHit (calculateRowsAffected dest'))\<rparr>, s')"
    if "Error db = None" "\<not> shouldSkipCache (config p) db" "shouldCacheModel (config p) db"
       "db' = (if SQL (Statement db) = [] then BuildQuerySQL lib db else db)"
       "SQL (Statement db') \<noteq> []"
       "iGet (Adapter (config p)) s now (generateCacheKey lib (config p) db') = (Inr data, s')"
       "Dest (Statement db') \<noteq> VNil"
       "Unmarshal (Serializer (config p)) data (Dest (Statement db')) = (None, dest')"
    using that by (simp add: queryCallback_def Let_def)
  have e: "runQuery lib p source now (db, s) =
             (db'\<lparr>Statement := (Statement db')\<lparr>Dest := dest'\<rparr>,
                  RowsAffected := calculateRowsAffected dest', Error := None\<rparr>, s')"
    if "queryCallback lib p now (db, s) =
             (db'\<lparr>Statement := (Statement db')\<lparr>Dest := dest'\<rparr>,
                  Error := Some (ErrCacheHit (calculateRowsAffected dest'))\<rparr>, s')"
    unfolding runQuery_def that by (simp add: gormQuery_def afterQueryCallback_def)
  have f: "queryCallback lib p now (db, s) = (db', s')"
    if "Error db = None" "\<not> shouldSkipCache (config p) db" "shouldCacheModel (config p) db"
       "db' = (if SQL (Statement db) = [] then BuildQuerySQL lib db else db)"
       "SQL (Statement db') \<noteq> []"
       "iGet (Adapter (config p)) s now (generateCacheKey lib (config p) db') = (Inr data, s')"
       "Dest (Statement db') = VNil"
    using that by (simp add: queryCallback_def Let_def)
  have g: "fst (runQuery lib p source now (db, s)) = source db'"
    if "queryCallback lib p now (db, s) = (db', s')" "Error db' = None"
       "\<forall>n. Error (source db') \<noteq> Some (ErrCacheHit n)"
    unfolding runQuery_def that(1)
    using that(2) afterQueryCallback_other_error [OF that(3), of p now s']
    by (simp add: gormQuery_def)
  show ?thesis
    using a b c d e f g by blast
qed

theorem cache_hit_rows_affected_witness:
  "Error findUsers = None \<and>
   \<not> shouldSkipCache (config (demoPlugin memoryAdapter)) findUsers \<and>
   shouldCacheModel (config (demoPlugin memoryAdapter)) findUsers \<and>
   SQL (Statement (demoBuild findUsers)) \<noteq> [] \<and>
   Dest (Statement (demoBuild findUsers)) \<noteq> VNil \<and>
   runQuery demoLib (demoPlugin memoryAdapter) (sourceWith []) 5
     (findUsers,
      snd (runQuery demoLib (demoPlugin memoryAdapter)
             (sourceWith [VStruct [VInt 1], VStruct [VInt 2]]) 1 (findUsers, NewMemoryAdapter))) =
     ((demoBuild findUsers)
        \<lparr>Statement := (Statement (demoBuild findUsers))
                        \<lparr>Dest := VPointer (VSlice [VStruct [], VStruct []])\<rparr>,
         RowsAffected := 2, Error := None\<rparr>,
      snd (runQuery demoLib (demoPlugin memoryAdapter)
             (sourceWith [VStruct [VInt 1], VStruct [VInt 2]]) 1 (findUsers, NewMemoryAdapter))) \<and>
   Dest (Statement (demoBuild (findUsers\<lparr>Statement := (Statement findUsers)\<lparr>Dest := VNil\<rparr>\<rparr>))) =
     VNil \<and>
   fst (runQuery demoLib (demoPlugin memoryAdapter) (sourceCount 3) 5
          (findUsers\<lparr>Statement := (Statement findUsers)\<lparr>Dest := VNil\<rparr>\<rparr>,
           snd (runQuery demoLib (demoPlugin memoryAdapter)
                  (sourceWith [VStruct [VInt 1], VStruct [VInt 2]]) 1
                  (findUsers, NewMemoryAdapter)))) =
     sourceCount 3 (demoBuild (findUsers\<lparr>Statement := (Statement findUsers)\<lparr>Dest := VNil\<rparr>\<rparr>))"
proof -
  define nc where "nc = findUsers\<lparr>Statement := (Statement findUsers)\<lparr>Dest := VNil\<rparr>\<rparr>"
  define m1 where
    "m1 = snd (runQuery demoLib (demoPlugin memoryAdapter)
                 (sourceWith [VStruct [VInt 1], VStruct [VInt 2]]) 1 (findUsers, NewMemoryAdapter))"
  have m1: "m1 = \<lparr>store = [(''gorm:cache:test_users:SELECT * FROM test_users'',
                            \<lparr>item_value = ''xx'', expiration = 300000000001\<rparr>)],
                  stopCh = Open, cleanUp = True\<rparr>"
    unfolding m1_def by (simp add: demo_defs callback_defs)
  have h1: "Error findUsers = None"
    by (simp add: findUsers_def)
  have h2: "\<not> shouldSkipCache (config (demoPlugin memoryAdapter)) findUsers"
    by (simp add: demo_defs callback_defs)
  have h3: "shouldCacheModel (config (demoPlugin memoryAdapter)) findUsers"
    by (simp add: demo_defs callback_defs)
  have h4: "demoBuild findUsers =
              (if SQL (Statement findUsers) = [] then BuildQuerySQL demoLib findUsers else findUsers)"
    by (simp add: demo_defs)
  have h5: "SQL (Statement (demoBuild findUsers)) \<noteq> []"
    by (simp add: demo_defs)
  have h6: "iGet (Adapter (config (demoPlugin memoryAdapter))) m1 5
              (generateCacheKey demoLib (config (demoPlugin memoryAdapter)) (demoBuild findUsers)) =
            (Inr ''xx'', m1)"
    unfolding m1 by (simp add: demo_defs callback_defs)
  have h7: "Dest (Statement (demoBuild findUsers)) \<noteq> VNil"
    by (simp add: demo_defs)
  have h8: "Unmarshal (Serializer (config (demoPlugin memoryAdapter))) ''xx''
              (Dest (Statement (demoBuild findUsers))) =
            (None, VPointer (VSlice [VStruct [], VStruct []]))"
    by (simp add: demo_defs)
  have c: "calculateRowsAffected (VPointer (VSlice [VStruct [], VStruct []])) = 2"
    by (simp add: calculateRowsAffected_def)
  have n1: "Error nc = None"
    by (simp add: nc_def findUsers_def)
  have n2: "\<not> shouldSkipCache (config (demoPlugin memoryAdapter)) nc"
    by (simp add: nc_def demo_defs callback_defs)
  have n3: "shouldCacheModel (config (demoPlugin memoryAdapter)) nc"
    by (simp add: nc_def demo_defs callback_defs)
  have n4: "demoBuild nc = (if SQL (Statement nc) = [] then BuildQuerySQL demoLib nc else nc)"
    by (simp add: nc_def demo_defs)
  have n5: "SQL (Statement (demoBuild nc)) \<noteq> []"
    by (simp add: demo_defs)
  have n6: "iGet (Adapter (config (demoPlugin memoryAdapter))) m1 5
              (generateCacheKey demoLib (config (demoPlugin memoryAdapter)) (demoBuild nc)) =
            (Inr ''xx'', m1)"
    unfolding m1 by (simp add: nc_def demo_defs callback_defs)
  have n7: "Dest (Statement (demoBuild nc)) = VNil"
    by (simp add: nc_def demo_defs)
  have n8: "Error (demoBuild nc) = None"
    by (simp add: nc_def demo_defs)
  have n9: "\<forall>n. Error (sourceCount 3 (demoBuild nc)) \<noteq> Some (ErrCacheHit n)"
    by (simp add: sourceCount_def n8)
  have nilpart: "fst (runQuery demoLib (demoPlugin memoryAdapter) (sourceCount 3) 5 (nc, m1)) =
                   sourceCount 3 (demoBuild nc)"
    using n1 n2 n3 n4 n5 n6 n7 n8 n9
      cache_hit_rows_affected
        [where p = "demoPlugin memoryAdapter" and db = nc and db' = "demoBuild nc"
           and lib = demoLib and s = m1 and s' = m1 and now = 5 and data = "''xx''"
           and source = "sourceCount 3"]
    by blast
  show ?thesis
    unfolding m1_def [symmetric] nc_def [symmetric]
    using h1 h2 h3 h4 h5 h6 h7 h8 c n7 nilpart
      cache_hit_rows_affected
        [where p = "demoPlugin memoryAdapter" and db = findUsers and db' = "demoBuild findUsers"
           and lib = demoLib and s = m1 and s' = m1 and now = 5 and data = "''xx''"
           and dest' = "VPointer (VSlice [VStruct [], VStruct []])" and source = "sourceWith []"]
    by simp
qed

lemma Get_state: "snd (Get m now key) = m"
  by (simp add: Get_def split: option.splits)

lemma queryCallback_memory_state:
  assumes "Adapter (config p) = memoryAdapter"
  shows "snd (queryCallback lib p now (db, m)) = m"
proof -
  have g: "\<And>k. iGet (Adapter (config p)) m now k = (fst (Get m now k), m)"
    using assms Get_state [of m now] by (simp add: memoryAdapter_def prod_eq_iff)
  show ?thesis
    by (simp add: queryCallback_def Let_def g split: sum.splits prod.splits)
qed

text \<open>
  A store that lost entries, read later, answers each key as before or with an error.
\<close>

lemma Get_shrunk_later:
  assumes "\<forall>k. map_of (store m2) k = None \<or> map_of (store m2) k = map_of (store m) k"
    and "now \<le> now2"
  shows "isl (fst (Get m2 now2 k)) \<or> fst (Get m2 now2 k) = fst (Get m now k)"
proof (cases "map_of (store m2) k")
  case None
  then show ?thesis by (simp add: Get_def)
next
  case (Some item)
  with assms(1) have "map_of (store m) k = Some item" by (metis option.distinct(1))
  with Some assms(2) show ?thesis
    by (auto simp: Get_def After_def)
qed

lemma invalidateCallback_shrinks:
  assumes "Adapter (config p) = memoryAdapter"
  shows "map_of (store (snd (invalidateCallback p (db, m)))) k = None \<or>
         map_of (store (snd (invalidateCallback p (db, m)))) k = map_of (store m) k"
  using assms
  by (simp add: invalidateCallback_def Let_def memoryAdapter_def DeletePattern_def
                map_of_fold_delete)

lemma afterCreate_shrinks:
  assumes "Adapter (config p) = memoryAdapter"
  shows "map_of (store (snd (afterCreate p (db, m)))) k = None \<or>
         map_of (store (snd (afterCreate p (db, m)))) k = map_of (store m) k"
  using invalidateCallback_shrinks [OF assms, of db m k] by (simp add: afterCreate_def)

text \<open>
  A call that \<^verbatim>\<open>queryCallback\<close> lets through to the source is let through again at a
  later time on a store that has only lost entries.
\<close>

lemma queryCallback_still_reaches_source:
  assumes mem: "Adapter (config p) = memoryAdapter"
    and shr: "\<forall>k. map_of (store m2) k = None \<or> map_of (store m2) k = map_of (store m) k"
    and later: "now \<le> now2"
    and reach: "Error (fst (queryCallback lib p now (db, m))) = None"
  shows "Error (fst (queryCallback lib p now2 (db, m2))) = None"
proof -
  define db' where "db' = (if length (SQL (Statement db)) = 0 then BuildQuerySQL lib db else db)"
  define key where "key = generateCacheKey lib (config p) db'"
  have g: "\<And>m t k. iGet (Adapter (config p)) m t k = (fst (Get m t k), m)"
    using mem by (simp add: memoryAdapter_def prod_eq_iff Get_state)
  have e0: "Error db = None"
    using reach by (auto simp: queryCallback_def split: if_splits)
  show ?thesis
  proof (cases "shouldSkipCache (config p) db \<or> \<not> shouldCacheModel (config p) db \<or> SQL (Statement db') = []")
    case True
    then show ?thesis
      using reach e0 by (auto simp: queryCallback_def Let_def db'_def)
  next
    case False
    have q: "\<And>m t. queryCallback lib p t (db, m) =
               (case fst (Get m t key) of
                  Inl err \<Rightarrow>
                    (db'\<lparr>Statement := (Statement db')
                           \<lparr>Settings := (Settings (Statement db'))(''gorm:cache:key'' \<mapsto> VString key)\<rparr>\<rparr>, m)
                | Inr cachedData \<Rightarrow>
                    if Dest (Statement db') \<noteq> VNil
                    then (let (err, dest) = Unmarshal (Serializer (config p)) cachedData (Dest (Statement db'));
                              db2 = db'\<lparr>Statement := (Statement db')\<lparr>Dest := dest\<rparr>\<rparr>
                          in if err = None
                             then (db2\<lparr>Error := Some (ErrCacheHit (calculateRowsAffected (Dest (Statement db2))))\<rparr>, m)
                             else (db2, m))
                    else (db', m))"
      using False e0 unfolding db'_def key_def
      by (auto simp: queryCallback_def Let_def g split: sum.splits prod.splits)
    have e1: "Error db' = None"
      using reach unfolding q
      by (auto simp: Let_def split: sum.splits if_splits prod.splits)
    consider (miss) "isl (fst (Get m2 now2 key))"
      | (same) "fst (Get m2 now2 key) = fst (Get m now key)"
      using Get_shrunk_later [OF shr later, of key] by blast
    then show ?thesis
    proof cases
      case miss
      then show ?thesis
        unfolding q using e1 by (auto simp: isl_def)
    next
      case same
      have "fst (queryCallback lib p now2 (db, m2)) = fst (queryCallback lib p now (db, m))"
        unfolding q same
        by (auto simp: Let_def split: sum.splits prod.splits)
      then show ?thesis using reach by simp
    qed
  qed
qed

lemma afterQueryCallback_empty_state:
  "RowsAffected db = 0 \<Longrightarrow> snd (afterQueryCallback p now (db, s)) = s"
  by (auto simp: afterQueryCallback_def split: option.splits goerror.splits goval.splits sum.splits)

text \<open>
  C1. \<^verbatim>\<open>afterQueryCallback\<close> on a call with \<^verbatim>\<open>RowsAffected = 0\<close> leaves the state of
  the adapter as it was, for every implementation of the adapter. With the in-memory
  adapter: when a read reaches the source and the source finds no rows, the chain of
  query callbacks leaves the adapter unchanged; after a following create, with or without
  its invalidation, the same read at a later time reaches the source again and returns
  to the caller what the source returns then.
\<close>

theorem empty_result_is_not_cached:
  "(RowsAffected dba = 0 \<longrightarrow> snd (afterQueryCallback pa nowa (dba, s)) = s) \<and>
   (Adapter (config p) = memoryAdapter \<and>
    dbq = fst (queryCallback lib p now (db, m)) \<and> Error dbq = None \<and>
    RowsAffected (source dbq) = 0 \<and>
    m' = snd (afterCreate p (dbc, snd (runQuery lib p source now (db, m)))) \<and>
    now \<le> later \<and>
    dbq' = fst (queryCallback lib p later (db, m')) \<and>
    (\<forall>n. Error (source' dbq') \<noteq> Some (ErrCacheHit n)) \<longrightarrow>
      snd (runQuery lib p source now (db, m)) = m \<and>
      Error dbq' = None \<and>
      fst (runQuery lib p source' later (db, m')) = source' dbq')"
proof -
  have a: "RowsAffected dba = 0 \<longrightarrow> snd (afterQueryCallback pa nowa (dba, s)) = s"
    using afterQueryCallback_empty_state [of dba pa nowa s] by blast
  have b: "snd (runQuery lib p source now (db, m)) = m \<and> Error dbq' = None \<and>
           fst (runQuery lib p source' later (db, m')) = source' dbq'"
    if mem: "Adapter (config p) = memoryAdapter"
      and dbq: "dbq = fst (queryCallback lib p now (db, m))"
      and reach: "Error dbq = None"
      and empty: "RowsAffected (source dbq) = 0"
      and m'def: "m' = snd (afterCreate p (dbc, snd (runQuery lib p source now (db, m))))"
      and later: "now \<le> later"
      and dbq'def: "dbq' = fst (queryCallback lib p later (db, m'))"
      and ok: "\<forall>n. Error (source' dbq') \<noteq> Some (ErrCacheHit n)"
  proof -
    have q1: "queryCallback lib p now (db, m) = (dbq, m)"
      using queryCallback_memory_state [OF mem, of lib now db m] dbq by (simp add: prod_eq_iff)
    have r1: "snd (runQuery lib p source now (db, m)) = m"
      unfolding runQuery_def q1
      using reach afterQueryCallback_empty_state [OF empty, of p now m]
      by (simp add: gormQuery_def)
    have shr: "\<forall>k. map_of (store m') k = None \<or> map_of (store m') k = map_of (store m) k"
      unfolding m'def r1 using afterCreate_shrinks [OF mem] by blast
    have e2: "Error dbq' = None"
      unfolding dbq'def
      using queryCallback_still_reaches_source [OF mem shr later] reach dbq by simp
    have q2: "queryCallback lib p later (db, m') = (dbq', m')"
      using queryCallback_memory_state [OF mem, of lib later db m'] dbq'def by (simp add: prod_eq_iff)
    have r2: "fst (runQuery lib p source' later (db, m')) = source' dbq'"
      unfolding runQuery_def q2 using e2 afterQueryCallback_other_error [OF ok]
      by (simp add: gormQuery_def)
    show ?thesis using r1 e2 r2 by simp
  qed
  show ?thesis
    using a b by blast
qed

theorem empty_result_is_not_cached_witness:
  "Adapter (config (demoPlugin memoryAdapter)) = memoryAdapter \<and>
   Error (fst (queryCallback demoLib (demoPlugin memoryAdapter) 5 (findUsers, NewMemoryAdapter))) = None \<and>
   RowsAffected (sourceWith []
     (fst (queryCallback demoLib (demoPlugin memoryAdapter) 5 (findUsers, NewMemoryAdapter)))) = 0 \<and>
   snd (runQuery demoLib (demoPlugin memoryAdapter) (sourceWith []) 5 (findUsers, NewMemoryAdapter)) =
     NewMemoryAdapter \<and>
   RowsAffected (fst (runQuery demoLib (demoPlugin memoryAdapter)
                        (sourceWith [VStruct [VInt 1, VString ''New User'']]) 6
                        (findUsers,
                         snd (afterCreate (demoPlugin memoryAdapter)
                                (findUsers,
                                 snd (runQuery demoLib (demoPlugin memoryAdapter) (sourceWith []) 5
                                        (findUsers, NewMemoryAdapter))))))) = 1 \<and>
   Dest (Statement (fst (runQuery demoLib (demoPlugin memoryAdapter)
                        (sourceWith [VStruct [VInt 1, VString ''New User'']]) 6
                        (findUsers,
                         snd (afterCreate (demoPlugin memoryAdapter)
                                (findUsers,
                                 snd (runQuery demoLib (demoPlugin memoryAdapter) (sourceWith []) 5
                                        (findUsers, NewMemoryAdapter)))))))) =
     VPointer (VSlice [VStruct [VInt 1, VString ''New User'']])"
proof -
  define p where "p = demoPlugin memoryAdapter"
  define dbq where "dbq = fst (queryCallback demoLib p 5 (findUsers, NewMemoryAdapter))"
  define m2 where
    "m2 = snd (afterCreate p (findUsers, snd (runQuery demoLib p (sourceWith []) 5 (findUsers, NewMemoryAdapter))))"
  define dbq2 where "dbq2 = fst (queryCallback demoLib p 6 (findUsers, m2))"
  define src2 where "src2 = sourceWith [VStruct [VInt 1, VString ''New User'']]"
  have h1: "Adapter (config p) = memoryAdapter"
    by (simp add: p_def demoPlugin_def demoConfig_def)
  have h2: "Error dbq = None"
    unfolding dbq_def p_def by (simp add: demo_defs callback_defs)
  have h3: "RowsAffected (sourceWith [] dbq) = 0"
    by (simp add: sourceWith_def)
  have m2: "m2 = NewMemoryAdapter"
    unfolding m2_def p_def by (simp add: demo_defs callback_defs)
  have e2: "Error dbq2 = None"
    unfolding dbq2_def m2 p_def by (simp add: demo_defs callback_defs)
  have h4: "\<forall>n. Error (src2 dbq2) \<noteq> Some (ErrCacheHit n)"
    using e2 by (simp add: src2_def sourceWith_def)
  have h5: "(5::nat) \<le> 6"
    by simp
  have r: "snd (runQuery demoLib p (sourceWith []) 5 (findUsers, NewMemoryAdapter)) = NewMemoryAdapter \<and>
           Error dbq2 = None \<and>
           fst (runQuery demoLib p src2 6 (findUsers, m2)) = src2 dbq2"
    using empty_result_is_not_cached
            [where p = p and lib = demoLib and db = findUsers and m = NewMemoryAdapter
               and now = 5 and later = 6 and dbq = dbq and source = "sourceWith []"
               and dbc = findUsers and m' = m2 and dbq' = dbq2 and source' = src2
               and dba = findUsers and pa = p and nowa = 5 and s = NewMemoryAdapter]
          h1 dbq_def h2 h3 m2_def h5 dbq2_def h4
    by blast
  show ?thesis
    unfolding p_def [symmetric] dbq_def [symmetric] m2_def [symmetric] src2_def [symmetric]
    using h1 h2 h3 r by (simp add: src2_def sourceWith_def)
qed

end
